theory Spec2Isabelle
  imports Main "HOL-Library.Multiset"
begin

section \<open>The UNO deck of \<^verbatim>\<open>src/uno/engine/deck.py\<close>\<close>

text \<open>
  The class \<^verbatim>\<open>Deck\<close> wraps one \<^verbatim>\<open>collections.deque\<close> of cards, held in the
  field \<^verbatim>\<open>_cards\<close>. The deque is modelled as a list whose head is the left end of
  the deque, which is the top of the deck. Every method is a function from the deck
  before the call to the deck after it; a method that can raise returns, next to the
  deck after the call, either the error or the value.
\<close>

subsection \<open>Errors and the deque primitives\<close>

datatype error = ValueError | IndexError | OverflowError

record 'a Deck =
  cards :: "'a list"

text \<open>\<^verbatim>\<open>deque.popleft()\<close>: removes and returns the leftmost element, raises
  \<^verbatim>\<open>IndexError\<close> on an empty deque.\<close>

definition popleft :: "'a Deck \<Rightarrow> (error + 'a) \<times> 'a Deck" where
  "popleft d =
     (case cards d of
        [] \<Rightarrow> (Inl IndexError, d)
      | c # rest \<Rightarrow> (Inr c, d\<lparr>cards := rest\<rparr>))"

definition appendleft :: "'a \<Rightarrow> 'a Deck \<Rightarrow> 'a Deck" where
  "appendleft c d = d\<lparr>cards := c # cards d\<rparr>"

definition append_right :: "'a \<Rightarrow> 'a Deck \<Rightarrow> 'a Deck" where
  "append_right c d = d\<lparr>cards := cards d @ [c]\<rparr>"

text \<open>\<^verbatim>\<open>deque.extend(iterable)\<close> appends the elements one after the other on the right.\<close>

definition deque_extend :: "'a list \<Rightarrow> 'a Deck \<Rightarrow> 'a Deck" where
  "deque_extend cs d = fold append_right cs d"

definition clear :: "'a Deck \<Rightarrow> 'a Deck" where
  "clear d = d\<lparr>cards := []\<rparr>"

text \<open>Python's slice \<^verbatim>\<open>xs[:k]\<close>: a negative bound counts from the end, and the
  bound is clamped to the list.\<close>

definition slice_to :: "'a list \<Rightarrow> int \<Rightarrow> 'a list" where
  "slice_to xs k =
     (if k < 0 then take (nat (int (length xs) + k)) xs else take (nat k) xs)"

subsection \<open>Size, draw, peek, add\<close>

definition size_deck :: "'a Deck \<Rightarrow> int" where
  "size_deck d = int (length (cards d))"

definition is_empty :: "'a Deck \<Rightarrow> bool" where
  "is_empty d = (int (length (cards d)) = 0)"

text \<open>The comprehension \<^verbatim>\<open>[self._cards.popleft() for _ in range(count)]\<close>: one
  \<^verbatim>\<open>popleft\<close> per round, the results collected in order. An \<^verbatim>\<open>IndexError\<close> of
  \<^verbatim>\<open>popleft\<close> would leave the loop with the cards popped so far already gone.\<close>

fun draw_loop :: "nat \<Rightarrow> 'a list \<Rightarrow> 'a Deck \<Rightarrow> (error + 'a list) \<times> 'a Deck" where
  "draw_loop 0 acc d = (Inr acc, d)"
| "draw_loop (Suc k) acc d =
     (case popleft d of
        (Inl e, d') \<Rightarrow> (Inl e, d')
      | (Inr c, d') \<Rightarrow> draw_loop k (acc @ [c]) d')"

definition draw :: "int \<Rightarrow> 'a Deck \<Rightarrow> (error + 'a list) \<times> 'a Deck" where
  "draw cnt d =
     (if cnt < 0 then (Inl ValueError, d)
      else if cnt > int (length (cards d)) then (Inl ValueError, d)
      else draw_loop (nat cnt) [] d)"

definition draw_one :: "'a Deck \<Rightarrow> (error + 'a option) \<times> 'a Deck" where
  "draw_one d =
     (if is_empty d then (Inr None, d)
      else (case popleft d of
              (Inl e, d') \<Rightarrow> (Inl e, d')
            | (Inr c, d') \<Rightarrow> (Inr (Some c), d')))"

definition add_card :: "'a \<Rightarrow> 'a Deck \<Rightarrow> 'a Deck" where
  "add_card c d = append_right c d"

definition add_cards :: "'a list \<Rightarrow> 'a Deck \<Rightarrow> 'a Deck" where
  "add_cards cs d = deque_extend cs d"

definition add_to_top :: "'a \<Rightarrow> 'a Deck \<Rightarrow> 'a Deck" where
  "add_to_top c d = appendleft c d"

text \<open>\<^verbatim>\<open>for card in reversed(cards): self._cards.appendleft(card)\<close>\<close>

definition add_cards_to_top :: "'a list \<Rightarrow> 'a Deck \<Rightarrow> 'a Deck" where
  "add_cards_to_top cs d = fold appendleft (rev cs) d"

definition peek :: "int \<Rightarrow> 'a Deck \<Rightarrow> (error + 'a list) \<times> 'a Deck" where
  "peek cnt d =
     (if cnt < 0 then (Inl ValueError, d)
      else if cnt > int (length (cards d)) then (Inl ValueError, d)
      else (Inr (slice_to (cards d) cnt), d))"

subsection \<open>Rotation\<close>

text \<open>
  \<^verbatim>\<open>Deck.rotate\<close> hands its argument to \<^verbatim>\<open>deque.rotate(n)\<close> and nothing else, so
  what the deque raises leaves the method. The deque is implemented in C and takes the
  step count as a \<^verbatim>\<open>ssize_t\<close>: a Python integer outside the range of that type, which
  is \<open>- 2 ^ 63 \<le> n < 2 ^ 63\<close> on a 64-bit interpreter, raises \<^verbatim>\<open>OverflowError\<close> when
  the argument is converted, before the deque is touched. For a step count in the range
  the library documents: rotate the deque \<^verbatim>\<open>n\<close> steps to the right; if \<^verbatim>\<open>n\<close> is
  negative, rotate to the left; on a deque that is not empty, one step to the right is
  \<^verbatim>\<open>d.appendleft(d.pop())\<close> and one step to the left is \<^verbatim>\<open>d.append(d.popleft())\<close>.
  An empty deque is left as it is.
\<close>

definition as_ssize_t :: "int \<Rightarrow> error + int" where
  "as_ssize_t k = (if - (2 ^ 63) \<le> k \<and> k < 2 ^ 63 then Inr k else Inl OverflowError)"

definition rotate_right1 :: "'a list \<Rightarrow> 'a list" where
  "rotate_right1 xs = (if xs = [] then [] else last xs # butlast xs)"

definition rotate_left1 :: "'a list \<Rightarrow> 'a list" where
  "rotate_left1 xs = (case xs of [] \<Rightarrow> [] | x # rest \<Rightarrow> rest @ [x])"

definition rotate_steps :: "int \<Rightarrow> 'a list \<Rightarrow> 'a list" where
  "rotate_steps n xs =
     (if 0 \<le> n then (rotate_right1 ^^ nat n) xs else (rotate_left1 ^^ nat (- n)) xs)"

definition deque_rotate :: "int \<Rightarrow> 'a list \<Rightarrow> error + 'a list" where
  "deque_rotate n xs =
     (case as_ssize_t n of
        Inl e \<Rightarrow> Inl e
      | Inr steps \<Rightarrow> Inr (rotate_steps steps xs))"

definition rotate_deck :: "int \<Rightarrow> 'a Deck \<Rightarrow> (error + unit) \<times> 'a Deck" where
  "rotate_deck positions d =
     (case deque_rotate positions (cards d) of
        Inl e \<Rightarrow> (Inl e, d)
      | Inr rotated \<Rightarrow> (Inr (), d\<lparr>cards := rotated\<rparr>))"

subsection \<open>Shuffle\<close>

text \<open>
  \<^verbatim>\<open>Deck.shuffle\<close> copies the deque into a list, calls \<^verbatim>\<open>random.shuffle\<close> on the list
  and stores the list back as a new deque. \<^verbatim>\<open>random.shuffle(x)\<close> is the library's loop
  \<^verbatim>\<open>for i in reversed(range(1, len(x))): j = randbelow(i + 1); x[i], x[j] = x[j], x[i]\<close>.
  The randomness source is any generator state \<open>g\<close> with any step function \<open>nxt\<close> that
  yields a raw number and the next state; \<^verbatim>\<open>randbelow(n)\<close> reduces the raw number into
  \<^verbatim>\<open>range(n)\<close>.
\<close>

definition randbelow :: "('g \<Rightarrow> nat \<times> 'g) \<Rightarrow> nat \<Rightarrow> 'g \<Rightarrow> nat \<times> 'g" where
  "randbelow nxt n g = (case nxt g of (r, g') \<Rightarrow> (r mod n, g'))"

fun shuffle_loop :: "('g \<Rightarrow> nat \<times> 'g) \<Rightarrow> nat \<Rightarrow> 'a list \<Rightarrow> 'g \<Rightarrow> 'a list \<times> 'g" where
  "shuffle_loop nxt 0 x g = (x, g)"
| "shuffle_loop nxt (Suc i) x g =
     (case randbelow nxt (Suc i + 1) g of
        (j, g') \<Rightarrow> shuffle_loop nxt i (x[Suc i := x ! j, j := x ! Suc i]) g')"

definition random_shuffle :: "('g \<Rightarrow> nat \<times> 'g) \<Rightarrow> 'a list \<Rightarrow> 'g \<Rightarrow> 'a list \<times> 'g" where
  "random_shuffle nxt x g = shuffle_loop nxt (length x - 1) x g"

definition shuffle :: "('g \<Rightarrow> nat \<times> 'g) \<Rightarrow> 'a Deck \<Rightarrow> 'g \<Rightarrow> 'a Deck \<times> 'g" where
  "shuffle nxt d g =
     (case random_shuffle nxt (cards d) g of (cards_list, g') \<Rightarrow> (d\<lparr>cards := cards_list\<rparr>, g'))"

subsection \<open>Distribution\<close>

text \<open>
  The dictionary that \<^verbatim>\<open>get_card_distribution\<close> returns. \<^verbatim>\<open>by_color\<close> and
  \<^verbatim>\<open>by_label\<close> start with the count 0 under the name of every member of the
  enumeration, so they are total functions on the members. What the method reads from a
  card (\<^verbatim>\<open>card.color\<close>, \<^verbatim>\<open>card.label\<close>, \<^verbatim>\<open>card.is_number_card\<close>,
  \<^verbatim>\<open>card.is_action_card\<close>, \<^verbatim>\<open>card.is_wild\<close>) lives in \<^verbatim>\<open>card.py\<close>, which is not
  among the sources: the five readers are parameters.
\<close>

record ('c, 'l) distribution =
  total :: int
  number_cards :: int
  action_cards :: int
  wild_cards :: int
  by_color :: "'c \<Rightarrow> int"
  by_label :: "'l \<Rightarrow> int"

text \<open>The body of the loop \<^verbatim>\<open>for card in self._cards\<close>.\<close>

definition count_card ::
  "('a \<Rightarrow> 'c) \<Rightarrow> ('a \<Rightarrow> 'l) \<Rightarrow> ('a \<Rightarrow> bool) \<Rightarrow> ('a \<Rightarrow> bool) \<Rightarrow> ('a \<Rightarrow> bool) \<Rightarrow>
   'a \<Rightarrow> ('c, 'l) distribution \<Rightarrow> ('c, 'l) distribution" where
  "count_card col lab isnum isact iswild crd dist =
     (let d1 = dist\<lparr>by_color := (by_color dist)(col crd := by_color dist (col crd) + 1)\<rparr>;
          d2 = d1\<lparr>by_label := (by_label d1)(lab crd := by_label d1 (lab crd) + 1)\<rparr>
      in if isnum crd then d2\<lparr>number_cards := number_cards d2 + 1\<rparr>
         else if isact crd then d2\<lparr>action_cards := action_cards d2 + 1\<rparr>
         else if iswild crd then d2\<lparr>wild_cards := wild_cards d2 + 1\<rparr>
         else d2)"

definition get_card_distribution ::
  "('a \<Rightarrow> 'c) \<Rightarrow> ('a \<Rightarrow> 'l) \<Rightarrow> ('a \<Rightarrow> bool) \<Rightarrow> ('a \<Rightarrow> bool) \<Rightarrow> ('a \<Rightarrow> bool) \<Rightarrow>
   'a Deck \<Rightarrow> ('c, 'l) distribution" where
  "get_card_distribution col lab isnum isact iswild d =
     fold (count_card col lab isnum isact iswild) (cards d)
       \<lparr>total = size_deck d, number_cards = 0, action_cards = 0, wild_cards = 0,
        by_color = (\<lambda>_. 0), by_label = (\<lambda>_. 0)\<rparr>"

subsection \<open>Cards\<close>

text \<open>
  Modelled from the spec: the enumeration \<^verbatim>\<open>CardColor\<close> of \<^verbatim>\<open>card.py\<close>, which is
  not among the sources. The spec gives a card a colour that is "one of a fixed small
  enum, or a wild sentinel"; the four colours are the ones \<^verbatim>\<open>Deck._COLORS\<close> names, and
  \<open>WILD_COLOR\<close> stands for the sentinel.
\<close>

datatype CardColor = RED | BLUE | GREEN | YELLOW | WILD_COLOR

text \<open>
  Modelled from the spec: the enumeration \<^verbatim>\<open>CardLabel\<close> of \<^verbatim>\<open>card.py\<close>. The spec
  gives a card a label that is a "number 0-9, one of a fixed set of action kinds, or one
  of a fixed set of wild kinds"; the action and wild kinds are the ones
  \<^verbatim>\<open>Deck._ACTIONS\<close> and \<^verbatim>\<open>Deck._WILDS\<close> name.
\<close>

datatype CardLabel = NUMBER int | SKIP | REVERSE | DRAW_TWO | WILD | WILD_DRAW_FOUR

text \<open>Modelled from the spec: the class \<^verbatim>\<open>Card\<close> of \<^verbatim>\<open>card.py\<close>, a colour and
  a label.\<close>

record Card =
  color :: CardColor
  label :: CardLabel

text \<open>Modelled from the spec: the derived predicate "is a number card" of \<^verbatim>\<open>Card\<close>.\<close>

definition is_number_card :: "Card \<Rightarrow> bool" where
  "is_number_card c = (case label c of NUMBER _ \<Rightarrow> True | _ \<Rightarrow> False)"

text \<open>Modelled from the spec: the derived predicate "is an action card" of \<^verbatim>\<open>Card\<close>.\<close>

definition is_action_card :: "Card \<Rightarrow> bool" where
  "is_action_card c =
     (case label c of SKIP \<Rightarrow> True | REVERSE \<Rightarrow> True | DRAW_TWO \<Rightarrow> True | _ \<Rightarrow> False)"

text \<open>Modelled from the spec: the derived predicate "is wild" of \<^verbatim>\<open>Card\<close>.\<close>

definition is_wild :: "Card \<Rightarrow> bool" where
  "is_wild c = (case label c of WILD \<Rightarrow> True | WILD_DRAW_FOUR \<Rightarrow> True | _ \<Rightarrow> False)"

text \<open>Modelled from the spec: \<^verbatim>\<open>CardFactory.create_number_card(color, number)\<close> of
  \<^verbatim>\<open>card.py\<close>, the number card of that colour.\<close>

definition create_number_card :: "CardColor \<Rightarrow> int \<Rightarrow> Card" where
  "create_number_card c number = \<lparr>color = c, label = NUMBER number\<rparr>"

text \<open>Modelled from the spec: \<^verbatim>\<open>CardFactory.create_action_card(color, action)\<close> of
  \<^verbatim>\<open>card.py\<close>, the action card of that colour.\<close>

definition create_action_card :: "CardColor \<Rightarrow> CardLabel \<Rightarrow> Card" where
  "create_action_card c action = \<lparr>color = c, label = action\<rparr>"

text \<open>Modelled from the spec: \<^verbatim>\<open>CardFactory.create_wild_card(wild_type)\<close> of
  \<^verbatim>\<open>card.py\<close>, the wild card of that kind; it takes no colour and carries the
  wild sentinel.\<close>

definition create_wild_card :: "CardLabel \<Rightarrow> Card" where
  "create_wild_card wild_type = \<lparr>color = WILD_COLOR, label = wild_type\<rparr>"

subsection \<open>The standard deck\<close>

definition ACTIONS :: "CardLabel list" where
  "ACTIONS = [SKIP, REVERSE, DRAW_TWO]"

definition WILDS :: "CardLabel list" where
  "WILDS = [WILD, WILD_DRAW_FOUR]"

definition COLORS :: "CardColor list" where
  "COLORS = [RED, BLUE, GREEN, YELLOW]"

text \<open>\<^verbatim>\<open>range(a, b)\<close>\<close>

definition py_range :: "int \<Rightarrow> int \<Rightarrow> int list" where
  "py_range a b = [a..b - 1]"

text \<open>The three loops of \<^verbatim>\<open>_initialize_standard_deck\<close>, each appending to
  \<^verbatim>\<open>cards_to_add\<close>: the body for one colour of the first loop, the body for one
  colour of the second, the body for one wild kind of the third.\<close>

definition add_number_cards :: "CardColor \<Rightarrow> Card list \<Rightarrow> Card list" where
  "add_number_cards c acc =
     fold (\<lambda>number acc. (acc @ [create_number_card c number]) @ [create_number_card c number])
       (py_range 1 10) (acc @ [create_number_card c 0])"

definition add_action_cards :: "CardColor \<Rightarrow> Card list \<Rightarrow> Card list" where
  "add_action_cards c acc =
     fold (\<lambda>action acc. (acc @ [create_action_card c action]) @ [create_action_card c action])
       ACTIONS acc"

definition add_wild_cards :: "CardLabel \<Rightarrow> Card list \<Rightarrow> Card list" where
  "add_wild_cards wild_type acc =
     fold (\<lambda>_ acc. acc @ [create_wild_card wild_type]) (py_range 0 4) acc"

definition cards_to_add :: "Card list" where
  "cards_to_add =
     fold add_wild_cards WILDS (fold add_action_cards COLORS (fold add_number_cards COLORS []))"

definition initialize_standard_deck :: "Card Deck \<Rightarrow> Card Deck" where
  "initialize_standard_deck d = deque_extend cards_to_add (clear d)"

text \<open>\<^verbatim>\<open>Deck.__init__(initialize)\<close>\<close>

definition Deck_init :: "bool \<Rightarrow> Card Deck" where
  "Deck_init initialize =
     (let d = \<lparr>cards = []\<rparr> in if initialize then initialize_standard_deck d else d)"

text \<open>The distribution of the deck that \<^verbatim>\<open>Deck(initialize=True)\<close> builds.\<close>

abbreviation standard_distribution :: "(CardColor, CardLabel) distribution" where
  "standard_distribution \<equiv>
     get_card_distribution color label is_number_card is_action_card is_wild (Deck_init True)"

subsection \<open>Merging two decks\<close>

text \<open>
  \<^verbatim>\<open>merge_decks\<close> receives two deck objects and builds a third. Whether it leaves its
  arguments alone is a question about objects, so the decks live in a store here: a
  reference is an index into the list of all deck objects, and a new object is put
  behind the last one. \<^verbatim>\<open>list(deck)\<close> runs \<^verbatim>\<open>Deck.__iter__\<close>, the deque from left to
  right.
\<close>

type_synonym store = "Card Deck list"

definition create_empty_deck :: "store \<Rightarrow> nat \<times> store" where
  "create_empty_deck s = (length s, s @ [Deck_init False])"

definition list_of_deck :: "'a Deck \<Rightarrow> 'a list" where
  "list_of_deck d = cards d"

definition add_cards_at :: "nat \<Rightarrow> Card list \<Rightarrow> store \<Rightarrow> store" where
  "add_cards_at r cs s = s[r := add_cards cs (s ! r)]"

definition merge_decks :: "nat \<Rightarrow> nat \<Rightarrow> store \<Rightarrow> nat \<times> store" where
  "merge_decks deck1 deck2 s =
     (case create_empty_deck s of
        (new_deck, s1) \<Rightarrow>
          (let s2 = add_cards_at new_deck (list_of_deck (s1 ! deck1)) s1;
               s3 = add_cards_at new_deck (list_of_deck (s2 ! deck2)) s2
           in (new_deck, s3)))"

section \<open>Properties\<close>

subsection \<open>The deque primitives on the list\<close>

lemma fold_appendleft_eq: "fold appendleft xs d = d\<lparr>cards := rev xs @ cards d\<rparr>"
  by (induction xs arbitrary: d) (simp_all add: appendleft_def)

lemma fold_append_right_eq: "fold append_right xs d = d\<lparr>cards := cards d @ xs\<rparr>"
  by (induction xs arbitrary: d) (simp_all add: append_right_def)

lemma add_cards_to_top_eq: "add_cards_to_top cs d = d\<lparr>cards := cs @ cards d\<rparr>"
  by (simp add: add_cards_to_top_def fold_appendleft_eq)

lemma add_cards_eq: "add_cards cs d = d\<lparr>cards := cards d @ cs\<rparr>"
  by (simp add: add_cards_def deque_extend_def fold_append_right_eq)

lemma draw_loop_eq:
  "k \<le> length (cards d) \<Longrightarrow>
   draw_loop k acc d = (Inr (acc @ take k (cards d)), d\<lparr>cards := drop k (cards d)\<rparr>)"
proof (induction k arbitrary: acc d)
  case 0
  show ?case by simp
next
  case (Suc k)
  then obtain c rest where cs: "cards d = c # rest"
    by (cases "cards d") auto
  with Suc.prems have "k \<le> length (cards (d\<lparr>cards := rest\<rparr>))"
    by simp
  from Suc.IH [OF this] cs show ?case
    by (simp add: popleft_def)
qed

lemma draw_in_range:
  "0 \<le> cnt \<Longrightarrow> cnt \<le> size_deck d \<Longrightarrow>
   draw cnt d = (Inr (take (nat cnt) (cards d)), d\<lparr>cards := drop (nat cnt) (cards d)\<rparr>)"
  by (simp add: draw_def size_deck_def draw_loop_eq)

lemma draw_out_of_range:
  "cnt < 0 \<or> size_deck d < cnt \<Longrightarrow> draw cnt d = (Inl ValueError, d)"
  by (auto simp: draw_def size_deck_def)

lemma peek_in_range:
  "0 \<le> cnt \<Longrightarrow> cnt \<le> size_deck d \<Longrightarrow>
   peek cnt d = (Inr (take (nat cnt) (cards d)), d)"
  by (simp add: peek_def size_deck_def slice_to_def)

lemma peek_out_of_range:
  "cnt < 0 \<or> size_deck d < cnt \<Longrightarrow> peek cnt d = (Inl ValueError, d)"
  by (auto simp: peek_def size_deck_def)

subsection \<open>Shuffle keeps the cards\<close>

lemma shuffle_loop_mset:
  "i = 0 \<or> i < length x \<Longrightarrow> mset (fst (shuffle_loop nxt i x g)) = mset x"
proof (induction i arbitrary: x g)
  case 0
  show ?case by simp
next
  case (Suc i)
  obtain r g' where step: "nxt g = (r, g')"
    by (cases "nxt g")
  let ?j = "r mod (Suc i + 1)"
  let ?x' = "x[Suc i := x ! ?j, ?j := x ! Suc i]"
  from Suc.prems have i_in: "Suc i < length x"
    by simp
  have "?j < Suc i + 1"
    by (rule mod_less_divisor) simp
  with i_in have j_in: "?j < length x"
    by arith
  from j_in i_in have swap: "mset ?x' = mset x"
    by (rule mset_swap [of ?j x "Suc i"])
  from i_in have "i = 0 \<or> i < length ?x'"
    by simp
  from Suc.IH [OF this] have "mset (fst (shuffle_loop nxt i ?x' g')) = mset ?x'" .
  with swap step show ?case
    by (simp add: randbelow_def)
qed

lemma random_shuffle_mset: "mset (fst (random_shuffle nxt x g)) = mset x"
proof -
  have "length x - 1 = 0 \<or> length x - 1 < length x"
    by (cases x) simp_all
  then show ?thesis
    unfolding random_shuffle_def by (rule shuffle_loop_mset)
qed

subsection \<open>Rotation as a residue\<close>

lemma rotate_left1_rotate1: "rotate_left1 = rotate1"
  by (rule ext) (simp add: rotate_left1_def rotate1_def split: list.splits)

lemma left_right1: "rotate_left1 (rotate_right1 xs) = xs"
  by (simp add: rotate_left1_def rotate_right1_def)

lemma right_left1: "rotate_right1 (rotate_left1 xs) = xs"
  by (cases xs) (simp_all add: rotate_left1_def rotate_right1_def)

lemma left_right_pow: "(rotate_left1 ^^ k) ((rotate_right1 ^^ k) xs) = xs"
proof (induction k)
  case 0
  show ?case by simp
next
  case (Suc k)
  have "(rotate_left1 ^^ Suc k) ((rotate_right1 ^^ Suc k) xs) =
        (rotate_left1 ^^ k) (rotate_left1 (rotate_right1 ((rotate_right1 ^^ k) xs)))"
    by (simp add: funpow_swap1)
  with Suc.IH show ?case
    by (simp add: left_right1)
qed

lemma right_left_pow: "(rotate_right1 ^^ k) ((rotate_left1 ^^ k) xs) = xs"
proof (induction k)
  case 0
  show ?case by simp
next
  case (Suc k)
  have "(rotate_right1 ^^ Suc k) ((rotate_left1 ^^ Suc k) xs) =
        (rotate_right1 ^^ k) (rotate_right1 (rotate_left1 ((rotate_left1 ^^ k) xs)))"
    by (simp add: funpow_swap1)
  with Suc.IH show ?case
    by (simp add: right_left1)
qed

lemma left_pow_rotate: "(rotate_left1 ^^ k) xs = rotate k xs"
  by (simp add: rotate_left1_rotate1 rotate_def)

lemma length_rotate_right1: "length (rotate_right1 xs) = length xs"
  by (simp add: rotate_right1_def)

lemma length_right_pow: "length ((rotate_right1 ^^ k) xs) = length xs"
  by (induction k) (simp_all add: length_rotate_right1)

lemma rotate_steps_conv:
  "rotate_steps k xs = rotate (nat ((- k) mod int (length xs))) xs"
proof (cases "xs = []")
  case True
  have "(rotate_right1 ^^ m) ([] :: 'a list) = []" for m
    by (induction m) (simp_all add: rotate_right1_def)
  with True show ?thesis
    by (simp add: rotate_steps_def left_pow_rotate)
next
  case False
  then have n: "0 < int (length xs)"
    by simp
  show ?thesis
  proof (cases "0 \<le> k")
    case True
    let ?m = "nat k"
    let ?ys = "(rotate_right1 ^^ ?m) xs"
    let ?r = "nat ((- k) mod int (length xs))"
    have undo: "rotate ?m ?ys = xs"
      using left_right_pow [of ?m xs] by (simp add: left_pow_rotate)
    have sum: "int (?r + ?m) = (- k) mod int (length xs) + k"
      using True n by simp
    have "((- k) mod int (length xs) + k) mod int (length xs) = 0"
      by (simp add: mod_add_left_eq)
    with sum have "int ((?r + ?m) mod length xs) = 0"
      by (simp only: zmod_int)
    then have "(?r + ?m) mod length ?ys = 0"
      by (simp only: length_right_pow of_nat_eq_0_iff)
    then have "rotate (?r + ?m) ?ys = ?ys"
      by (rule rotate_id)
    then have "rotate ?r (rotate ?m ?ys) = ?ys"
      by (simp add: rotate_rotate)
    with undo have "rotate ?r xs = ?ys"
      by simp
    with True show ?thesis
      by (simp add: rotate_steps_def)
  next
    case False
    then have "nat ((- k) mod int (length xs)) = nat (- k) mod length xs"
      by (simp add: nat_mod_distrib)
    with False show ?thesis
      by (simp add: rotate_steps_def left_pow_rotate rotate_conv_mod [symmetric])
  qed
qed

lemma rotate_steps_mod:
  "rotate_steps (k mod int (length xs)) xs = rotate_steps k xs"
  by (simp add: rotate_steps_conv mod_minus_eq)

lemma rotate_steps_zero: "rotate_steps 0 xs = xs"
  by (simp add: rotate_steps_def)

lemma rotate_steps_length: "rotate_steps (int (length xs)) xs = xs"
  by (simp add: rotate_steps_conv)

lemma rotate_steps_inverse: "rotate_steps (- k) (rotate_steps k xs) = xs"
proof (cases "0 \<le> k")
  case True
  show ?thesis
  proof (cases "k = 0")
    case True
    then show ?thesis by (simp add: rotate_steps_def)
  next
    case False
    with \<open>0 \<le> k\<close> show ?thesis
      by (simp add: rotate_steps_def left_right_pow)
  qed
next
  case False
  then show ?thesis
    by (simp add: rotate_steps_def right_left_pow)
qed

lemma length_rotate_steps: "length (rotate_steps k xs) = length xs"
  by (simp add: rotate_steps_conv)

lemma rotate_steps_drop_take:
  assumes "xs \<noteq> []"
  shows "rotate_steps k xs =
           drop (nat (int (length xs) - k mod int (length xs))) xs @
           take (nat (int (length xs) - k mod int (length xs))) xs"
proof (cases "k mod int (length xs) = 0")
  case True
  then have "(- k) mod int (length xs) = 0"
    by (simp add: zmod_zminus1_eq_if)
  with True show ?thesis
    by (simp add: rotate_steps_conv)
next
  case False
  let ?m = "nat (int (length xs) - k mod int (length xs))"
  from assms have n: "0 < int (length xs)"
    by simp
  then have "0 \<le> k mod int (length xs)"
    by simp
  with False have "0 < k mod int (length xs)"
    by linarith
  with n have small: "?m < length xs"
    by linarith
  from False have "(- k) mod int (length xs) = int (length xs) - k mod int (length xs)"
    by (simp add: zmod_zminus1_eq_if)
  then have "rotate_steps k xs = rotate ?m xs"
    by (simp add: rotate_steps_conv)
  also have "\<dots> = drop (?m mod length xs) xs @ take (?m mod length xs) xs"
    by (rule rotate_drop_take)
  also from small have "?m mod length xs = ?m"
    by simp
  finally show ?thesis .
qed

lemma rotate_deck_in_range:
  "- (2 ^ 63) \<le> k \<Longrightarrow> k < 2 ^ 63 \<Longrightarrow>
   rotate_deck k d = (Inr (), d\<lparr>cards := rotate_steps k (cards d)\<rparr>)"
  by (simp add: rotate_deck_def deque_rotate_def as_ssize_t_def)

lemma rotate_deck_out_of_range:
  "k < - (2 ^ 63) \<or> 2 ^ 63 \<le> k \<Longrightarrow> rotate_deck k d = (Inl OverflowError, d)"
  by (auto simp: rotate_deck_def deque_rotate_def as_ssize_t_def)

subsection \<open>Counting in one pass\<close>

lemma fold_count_card_total:
  "total (fold (count_card col lab isnum isact iswild) xs D) = total D"
  by (induction xs arbitrary: D) (simp_all add: count_card_def Let_def)

lemma fold_count_card_number:
  "number_cards (fold (count_card col lab isnum isact iswild) xs D) =
   number_cards D + int (length (filter isnum xs))"
  by (induction xs arbitrary: D) (simp_all add: count_card_def Let_def)

lemma fold_count_card_action:
  "action_cards (fold (count_card col lab isnum isact iswild) xs D) =
   action_cards D + int (length (filter (\<lambda>c. \<not> isnum c \<and> isact c) xs))"
  by (induction xs arbitrary: D) (simp_all add: count_card_def Let_def)

lemma fold_count_card_wild:
  "wild_cards (fold (count_card col lab isnum isact iswild) xs D) =
   wild_cards D + int (length (filter (\<lambda>c. \<not> isnum c \<and> \<not> isact c \<and> iswild c) xs))"
  by (induction xs arbitrary: D) (simp_all add: count_card_def Let_def)

lemma fold_count_card_by_color:
  "by_color (fold (count_card col lab isnum isact iswild) xs D) k =
   by_color D k + int (length (filter (\<lambda>c. col c = k) xs))"
  by (induction xs arbitrary: D) (simp_all add: count_card_def Let_def)

lemma fold_count_card_by_label:
  "by_label (fold (count_card col lab isnum isact iswild) xs D) k =
   by_label D k + int (length (filter (\<lambda>c. lab c = k) xs))"
  by (induction xs arbitrary: D) (simp_all add: count_card_def Let_def)

lemma buckets_partition:
  "length (filter P xs) + length (filter (\<lambda>c. \<not> P c \<and> Q c) xs) +
   length (filter (\<lambda>c. \<not> P c \<and> \<not> Q c \<and> R c) xs) +
   length (filter (\<lambda>c. \<not> P c \<and> \<not> Q c \<and> \<not> R c) xs) = length xs"
  by (induction xs) simp_all

lemma no_rest_iff:
  "length (filter (\<lambda>c. \<not> P c \<and> \<not> Q c \<and> \<not> R c) xs) = 0 \<longleftrightarrow>
   list_all (\<lambda>c. P c \<or> Q c \<or> R c) xs"
  by (induction xs) simp_all

subsection \<open>The standard composition\<close>

lemma py_range_1_10: "py_range 1 10 = [1, 2, 3, 4, 5, 6, 7, 8, 9]"
  by (simp add: py_range_def upto_rec1)

lemma py_range_0_4: "py_range 0 4 = [0, 1, 2, 3]"
  by (simp add: py_range_def upto_rec1)

lemma number_cards_of_color:
  "add_number_cards c acc =
     acc @ create_number_card c 0 #
       concat (map (\<lambda>n. [create_number_card c n, create_number_card c n]) [1, 2, 3, 4, 5, 6, 7, 8, 9])"
  by (simp add: add_number_cards_def py_range_1_10)

lemma action_cards_of_color:
  "add_action_cards c acc =
     acc @ concat (map (\<lambda>a. [create_action_card c a, create_action_card c a]) [SKIP, REVERSE, DRAW_TWO])"
  by (simp add: add_action_cards_def ACTIONS_def)

lemma wild_cards_of_kind:
  "add_wild_cards w acc = acc @ replicate 4 (create_wild_card w)"
  by (simp add: add_wild_cards_def py_range_0_4 numeral_eq_Suc)

lemma cards_to_add_eq:
  "cards_to_add =
     add_number_cards RED [] @ add_number_cards BLUE [] @ add_number_cards GREEN [] @
     add_number_cards YELLOW [] @
     add_action_cards RED [] @ add_action_cards BLUE [] @ add_action_cards GREEN [] @
     add_action_cards YELLOW [] @
     replicate 4 (create_wild_card WILD) @ replicate 4 (create_wild_card WILD_DRAW_FOUR)"
proof -
  have split_numbers: "add_number_cards c acc = acc @ add_number_cards c []" for c acc
    by (simp add: number_cards_of_color)
  have split_actions: "add_action_cards c acc = acc @ add_action_cards c []" for c acc
    by (simp add: action_cards_of_color)
  have "fold add_number_cards COLORS [] =
        add_number_cards RED [] @ add_number_cards BLUE [] @ add_number_cards GREEN [] @
        add_number_cards YELLOW []"
    by (simp add: COLORS_def split_numbers [of BLUE "add_number_cards RED []"]
        split_numbers [of GREEN "add_number_cards RED [] @ add_number_cards BLUE []"]
        split_numbers [of YELLOW
          "add_number_cards RED [] @ add_number_cards BLUE [] @ add_number_cards GREEN []"])
  moreover have "fold add_action_cards COLORS acc =
        acc @ add_action_cards RED [] @ add_action_cards BLUE [] @ add_action_cards GREEN [] @
        add_action_cards YELLOW []" for acc
    by (simp add: COLORS_def action_cards_of_color)
  ultimately show ?thesis
    by (simp add: cards_to_add_def WILDS_def wild_cards_of_kind)
qed

lemma Deck_init_True: "cards (Deck_init True) = cards_to_add"
  by (simp add: Deck_init_def initialize_standard_deck_def clear_def deque_extend_def
      fold_append_right_eq)

lemma length_cards_to_add: "length cards_to_add = 108"
  by (simp add: cards_to_add_eq number_cards_of_color action_cards_of_color)

lemma count_number: "length (filter is_number_card cards_to_add) = 76"
  by (simp add: cards_to_add_eq number_cards_of_color action_cards_of_color
      is_number_card_def create_number_card_def create_action_card_def create_wild_card_def)

lemma count_action:
  "length (filter (\<lambda>c. \<not> is_number_card c \<and> is_action_card c) cards_to_add) = 24"
  by (simp add: cards_to_add_eq number_cards_of_color action_cards_of_color
      is_number_card_def is_action_card_def
      create_number_card_def create_action_card_def create_wild_card_def)

lemma count_wild:
  "length (filter (\<lambda>c. \<not> is_number_card c \<and> \<not> is_action_card c \<and> is_wild c) cards_to_add) = 8"
  by (simp add: cards_to_add_eq number_cards_of_color action_cards_of_color
      is_number_card_def is_action_card_def is_wild_def
      create_number_card_def create_action_card_def create_wild_card_def)

lemma count_color:
  "length (filter (\<lambda>c. color c = k) cards_to_add) = (if k = WILD_COLOR then 8 else 25)"
  by (cases k)
     (simp_all add: cards_to_add_eq number_cards_of_color action_cards_of_color
      create_number_card_def create_action_card_def create_wild_card_def)

lemma standard_total: "total standard_distribution = 108"
  by (simp add: get_card_distribution_def fold_count_card_total size_deck_def
      Deck_init_True length_cards_to_add)

lemma standard_number: "number_cards standard_distribution = 76"
  by (simp add: get_card_distribution_def fold_count_card_number Deck_init_True count_number)

lemma standard_action: "action_cards standard_distribution = 24"
  by (simp add: get_card_distribution_def fold_count_card_action Deck_init_True count_action)

lemma standard_wild: "wild_cards standard_distribution = 8"
  by (simp add: get_card_distribution_def fold_count_card_wild Deck_init_True count_wild)

lemma standard_by_color:
  "by_color standard_distribution k = (if k = WILD_COLOR then 8 else 25)"
  by (simp add: get_card_distribution_def fold_count_card_by_color Deck_init_True count_color)

section \<open>The claims\<close>

text \<open>
  Claim C1. After \<^verbatim>\<open>add_cards_to_top(cards)\<close> the deck reads, from the top, the input
  list in its own order and then the cards that were there before, in their order; in
  particular adding \<open>[c1, c2]\<close> to the top and drawing two cards returns \<open>[c1, c2]\<close>
  and leaves the deck as it was before the two calls. This holds for every deck and
  every list.
\<close>

theorem add_cards_to_top_keeps_input_order:
  "cards (add_cards_to_top cs d) = cs @ cards d \<and>
   draw 2 (add_cards_to_top [c1, c2] d) = (Inr [c1, c2], d)"
  by (simp add: add_cards_to_top_eq draw_in_range size_deck_def)

text \<open>
  Claim C2, as it is written, asks for 27 cards under each of the four colours next to
  76 number cards, 24 action cards and 8 wild cards. The deck that
  \<^verbatim>\<open>Deck(initialize=True)\<close> builds has 25 cards under each colour, so the
  conjunction of the claim is false.
\<close>

theorem standard_deck_27_per_color_counterexample:
  "\<not> (size_deck (Deck_init True) = 108 \<and>
      number_cards standard_distribution = 76 \<and>
      action_cards standard_distribution = 24 \<and>
      wild_cards standard_distribution = 8 \<and>
      by_color standard_distribution RED = 27 \<and>
      by_color standard_distribution BLUE = 27 \<and>
      by_color standard_distribution GREEN = 27 \<and>
      by_color standard_distribution YELLOW = 27)"
  by (simp add: standard_by_color)

text \<open>
  Claim C2, amended. The deck that \<^verbatim>\<open>Deck(initialize=True)\<close> builds has size 108, and
  its distribution reports a total of 108, 76 number cards, 24 action cards, 8 wild
  cards and 25 cards under each of the four colours; the 8 wild cards are counted
  under the wild sentinel, apart from the four colours.
\<close>

theorem standard_deck_composition:
  "size_deck (Deck_init True) = 108 \<and>
   total standard_distribution = 108 \<and>
   number_cards standard_distribution = 76 \<and>
   action_cards standard_distribution = 24 \<and>
   wild_cards standard_distribution = 8 \<and>
   by_color standard_distribution RED = 25 \<and>
   by_color standard_distribution BLUE = 25 \<and>
   by_color standard_distribution GREEN = 25 \<and>
   by_color standard_distribution YELLOW = 25 \<and>
   by_color standard_distribution WILD_COLOR = 8"
  by (simp add: size_deck_def Deck_init_True length_cards_to_add standard_total
      standard_number standard_action standard_wild standard_by_color)

text \<open>
  Claim C3. On a deck of size \<open>n\<close>, \<^verbatim>\<open>draw(count)\<close> raises exactly when
  \<open>count < 0\<close> or \<open>count > n\<close>, and so does \<^verbatim>\<open>peek(count)\<close>; what they raise
  then is \<^verbatim>\<open>ValueError\<close>, and the deck after the failed call is the deck before it.
\<close>

theorem draw_peek_fail_iff_out_of_range:
  "(isl (fst (draw cnt d)) \<longleftrightarrow> cnt < 0 \<or> size_deck d < cnt) \<and>
   (isl (fst (peek cnt d)) \<longleftrightarrow> cnt < 0 \<or> size_deck d < cnt) \<and>
   (isl (fst (draw cnt d)) \<longrightarrow> draw cnt d = (Inl ValueError, d)) \<and>
   (isl (fst (peek cnt d)) \<longrightarrow> peek cnt d = (Inl ValueError, d))"
proof (cases "cnt < 0 \<or> size_deck d < cnt")
  case True
  then show ?thesis
    by (simp add: draw_out_of_range peek_out_of_range)
next
  case False
  then have "0 \<le> cnt" and "cnt \<le> size_deck d"
    by simp_all
  then show ?thesis
    using False by (simp add: draw_in_range peek_in_range)
qed

theorem draw_peek_fail_iff_out_of_range_witness:
  "isl (fst (draw 4 \<lparr>cards = [10, 20, 30 :: nat]\<rparr>)) \<and>
   draw 4 \<lparr>cards = [10, 20, 30 :: nat]\<rparr> = (Inl ValueError, \<lparr>cards = [10, 20, 30]\<rparr>) \<and>
   isl (fst (peek (- 1) \<lparr>cards = [10, 20, 30 :: nat]\<rparr>)) \<and>
   peek (- 1) \<lparr>cards = [10, 20, 30 :: nat]\<rparr> = (Inl ValueError, \<lparr>cards = [10, 20, 30]\<rparr>)"
proof -
  let ?d = "\<lparr>cards = [10, 20, 30 :: nat]\<rparr>"
  have big: "4 < 0 \<or> size_deck ?d < 4"
    by (simp add: size_deck_def)
  have neg: "- 1 < (0::int) \<or> size_deck ?d < - 1"
    by simp
  from big draw_peek_fail_iff_out_of_range [of 4 ?d]
  have "isl (fst (draw 4 ?d))" and "draw 4 ?d = (Inl ValueError, ?d)"
    by blast+
  moreover from neg draw_peek_fail_iff_out_of_range [of "- 1" ?d]
  have "isl (fst (peek (- 1) ?d))" and "peek (- 1) ?d = (Inl ValueError, ?d)"
    by blast+
  ultimately show ?thesis
    by blast
qed

text \<open>
  Claim C4. For \<open>0 \<le> count \<le> n\<close>, \<^verbatim>\<open>draw(count)\<close> returns the first \<open>count\<close>
  cards from the top, in that order, and leaves the other cards in their order: the
  returned list has length \<open>count\<close>, the size drops by \<open>count\<close>, and the returned
  cards followed by the cards left are the deck before the call. \<^verbatim>\<open>draw(0)\<close>
  returns the empty list and changes nothing.
\<close>

theorem draw_takes_top_cards:
  assumes "0 \<le> cnt" and "cnt \<le> size_deck d"
  shows "draw cnt d = (Inr (take (nat cnt) (cards d)), d\<lparr>cards := drop (nat cnt) (cards d)\<rparr>) \<and>
         int (length (take (nat cnt) (cards d))) = cnt \<and>
         size_deck (snd (draw cnt d)) = size_deck d - cnt \<and>
         take (nat cnt) (cards d) @ cards (snd (draw cnt d)) = cards d \<and>
         draw 0 d = (Inr [], d)"
proof -
  have zero: "draw 0 d = (Inr [], d)"
    by (simp add: draw_in_range size_deck_def)
  from assms have len: "nat cnt \<le> length (cards d)"
    by (simp add: size_deck_def)
  from assms show ?thesis
    using zero len by (simp add: draw_in_range size_deck_def)
qed

theorem draw_takes_top_cards_witness:
  "draw 2 \<lparr>cards = [10, 20, 30 :: nat]\<rparr> = (Inr [10, 20], \<lparr>cards = [30]\<rparr>) \<and>
   size_deck (snd (draw 2 \<lparr>cards = [10, 20, 30 :: nat]\<rparr>)) = 1"
proof -
  let ?d = "\<lparr>cards = [10, 20, 30 :: nat]\<rparr>"
  have lo: "(0::int) \<le> 2"
    by simp
  have hi: "2 \<le> size_deck ?d"
    by (simp add: size_deck_def)
  note inst = draw_takes_top_cards [OF lo hi]
  from inst have "draw 2 ?d = (Inr [10, 20], \<lparr>cards = [30]\<rparr>)"
    by simp
  moreover from inst have "size_deck (snd (draw 2 ?d)) = size_deck ?d - 2"
    by blast
  then have "size_deck (snd (draw 2 ?d)) = 1"
    by (simp add: size_deck_def)
  ultimately show ?thesis
    by blast
qed

text \<open>
  Claim C5. \<^verbatim>\<open>draw_one()\<close> on a deck of size 0 returns \<^verbatim>\<open>None\<close>, raises nothing and
  leaves the deck as it is; on a deck of size above 0 it returns the card that was on
  top, the cards below it stay in their order, and the size drops by one.
\<close>

theorem draw_one_empty_or_top:
  "(size_deck d = 0 \<longrightarrow> draw_one d = (Inr None, d)) \<and>
   (0 < size_deck d \<longrightarrow>
      draw_one d = (Inr (Some (hd (cards d))), d\<lparr>cards := tl (cards d)\<rparr>) \<and>
      cards d = hd (cards d) # cards (snd (draw_one d)) \<and>
      size_deck (snd (draw_one d)) = size_deck d - 1)"
  by (cases "cards d") (simp_all add: draw_one_def is_empty_def size_deck_def popleft_def)

theorem draw_one_empty_or_top_witness:
  "draw_one \<lparr>cards = ([] :: nat list)\<rparr> = (Inr None, \<lparr>cards = []\<rparr>) \<and>
   draw_one \<lparr>cards = [10, 20, 30 :: nat]\<rparr> = (Inr (Some 10), \<lparr>cards = [20, 30]\<rparr>)"
proof -
  have none: "size_deck \<lparr>cards = ([] :: nat list)\<rparr> = 0"
    by (simp add: size_deck_def)
  have some: "0 < size_deck \<lparr>cards = [10, 20, 30 :: nat]\<rparr>"
    by (simp add: size_deck_def)
  from none draw_one_empty_or_top [of "\<lparr>cards = ([] :: nat list)\<rparr>"]
  have "draw_one \<lparr>cards = ([] :: nat list)\<rparr> = (Inr None, \<lparr>cards = []\<rparr>)"
    by blast
  moreover from some draw_one_empty_or_top [of "\<lparr>cards = [10, 20, 30 :: nat]\<rparr>"]
  have "draw_one \<lparr>cards = [10, 20, 30 :: nat]\<rparr> =
        (Inr (Some (hd [10, 20, 30])), \<lparr>cards = tl [10, 20, 30]\<rparr>)"
    by simp
  ultimately show ?thesis
    by simp
qed

text \<open>
  Claim C6. For \<open>0 \<le> count \<le> n\<close>, \<^verbatim>\<open>peek(count)\<close> leaves the deck (so its size
  and order) as it is and returns the list that \<^verbatim>\<open>draw(count)\<close> returns; and
  \<^verbatim>\<open>draw(count)\<close> followed by \<^verbatim>\<open>add_cards_to_top\<close> of the drawn list gives back the
  deck before the draw.
\<close>

theorem peek_is_draw_then_put_back:
  assumes "0 \<le> cnt" and "cnt \<le> size_deck d"
  shows "snd (peek cnt d) = d \<and>
         size_deck (snd (peek cnt d)) = size_deck d \<and>
         fst (peek cnt d) = fst (draw cnt d) \<and>
         fst (draw cnt d) = Inr (take (nat cnt) (cards d)) \<and>
         add_cards_to_top (take (nat cnt) (cards d)) (snd (draw cnt d)) = d"
  using assms by (simp add: draw_in_range peek_in_range add_cards_to_top_eq)

theorem peek_is_draw_then_put_back_witness:
  "snd (peek 2 \<lparr>cards = [10, 20, 30 :: nat]\<rparr>) = \<lparr>cards = [10, 20, 30]\<rparr> \<and>
   fst (peek 2 \<lparr>cards = [10, 20, 30 :: nat]\<rparr>) = Inr [10, 20] \<and>
   add_cards_to_top [10, 20] (snd (draw 2 \<lparr>cards = [10, 20, 30 :: nat]\<rparr>)) = \<lparr>cards = [10, 20, 30]\<rparr>"
proof -
  let ?d = "\<lparr>cards = [10, 20, 30 :: nat]\<rparr>"
  have lo: "(0::int) \<le> 2"
    by simp
  have hi: "2 \<le> size_deck ?d"
    by (simp add: size_deck_def)
  have top: "take (nat 2) (cards ?d) = [10, 20]"
    by simp
  note inst = peek_is_draw_then_put_back [OF lo hi]
  from inst have "snd (peek 2 ?d) = ?d"
    by blast
  moreover from inst have "fst (peek 2 ?d) = Inr (take (nat 2) (cards ?d))"
    by metis
  moreover from inst
  have "add_cards_to_top (take (nat 2) (cards ?d)) (snd (draw 2 ?d)) = ?d"
    by blast
  ultimately show ?thesis
    unfolding top by blast
qed

text \<open>
  Claim C7. Whatever the randomness source yields (any generator state, any step
  function), \<^verbatim>\<open>shuffle()\<close> stores a permutation of the cards back into the deck: the
  multiset of the cards and the size after the call are those before it. The call
  returns no value; the model returns the deck and the generator state after the call.
\<close>

theorem shuffle_permutes:
  "mset (cards (fst (shuffle nxt d g))) = mset (cards d) \<and>
   size_deck (fst (shuffle nxt d g)) = size_deck d"
proof -
  obtain ys g' where rs: "random_shuffle nxt (cards d) g = (ys, g')"
    by (cases "random_shuffle nxt (cards d) g")
  with random_shuffle_mset [of nxt "cards d" g] have perm: "mset ys = mset (cards d)"
    by simp
  then have "length ys = length (cards d)"
    by (rule mset_eq_length)
  with perm rs show ?thesis
    by (simp add: shuffle_def size_deck_def)
qed

text \<open>
  Claim C8, as it is written, says that \<^verbatim>\<open>rotate(k)\<close> fails for no integer \<open>k\<close> and
  that \<^verbatim>\<open>rotate(k)\<close> followed by \<^verbatim>\<open>rotate(-k)\<close> gives back the order for every
  \<open>k\<close>. On a deck of three cards \<^verbatim>\<open>rotate(2 ** 63)\<close> raises \<^verbatim>\<open>OverflowError\<close>; and
  \<^verbatim>\<open>rotate(-2 ** 63)\<close> succeeds, after which \<^verbatim>\<open>rotate(2 ** 63)\<close> raises and the
  deck stays rotated.
\<close>

theorem rotate_overflow_counterexample:
  "fst (rotate_deck (2 ^ 63) \<lparr>cards = [10, 20, 30 :: nat]\<rparr>) = Inl OverflowError \<and>
   rotate_deck (- (2 ^ 63)) \<lparr>cards = [10, 20, 30 :: nat]\<rparr> = (Inr (), \<lparr>cards = [30, 10, 20]\<rparr>) \<and>
   rotate_deck (2 ^ 63) \<lparr>cards = [30, 10, 20 :: nat]\<rparr> =
     (Inl OverflowError, \<lparr>cards = [30, 10, 20]\<rparr>)"
proof -
  have "rotate_steps (- (2 ^ 63)) [10, 20, 30 :: nat] = [30, 10, 20]"
    by (simp add: rotate_steps_drop_take)
  then have "rotate_deck (- (2 ^ 63)) \<lparr>cards = [10, 20, 30 :: nat]\<rparr> =
             (Inr (), \<lparr>cards = [30, 10, 20]\<rparr>)"
    by (simp add: rotate_deck_in_range)
  then show ?thesis
    by (simp add: rotate_deck_out_of_range)
qed

text \<open>
  Claim C8, amended. \<^verbatim>\<open>rotate(k)\<close> fails exactly when \<open>k < - 2 ^ 63\<close> or
  \<open>2 ^ 63 \<le> k\<close>, the integers that the deque cannot take as a step count; it fails
  with \<^verbatim>\<open>OverflowError\<close> and the deck is as before. For every other integer \<open>k\<close> it
  does not fail, whatever the size of the deck and however large \<open>k\<close> is next to the
  size: it keeps the size, leaves an empty deck as it is, and on a deck of \<open>n > 0\<close>
  cards it is the rotation by \<open>k mod n\<close>, which puts the last \<open>k mod n\<close> cards on top,
  in their order, and the other cards below them, in their order. \<^verbatim>\<open>rotate(0)\<close>
  leaves the order as it is, and so does \<^verbatim>\<open>rotate(n)\<close> (a deque holds fewer than
  \<open>2 ^ 63\<close> elements). \<^verbatim>\<open>rotate(k)\<close> followed by \<^verbatim>\<open>rotate(-k)\<close> gives back the order
  before for every \<open>k\<close> with \<open>- 2 ^ 63 < k < 2 ^ 63\<close>.
\<close>

theorem rotate_within_ssize_t:
  "(isl (fst (rotate_deck k d)) \<longleftrightarrow> k < - (2 ^ 63) \<or> 2 ^ 63 \<le> k) \<and>
   (isl (fst (rotate_deck k d)) \<longrightarrow> rotate_deck k d = (Inl OverflowError, d)) \<and>
   (- (2 ^ 63) \<le> k \<and> k < 2 ^ 63 \<longrightarrow>
      fst (rotate_deck k d) = Inr () \<and>
      size_deck (snd (rotate_deck k d)) = size_deck d \<and>
      (size_deck d = 0 \<longrightarrow> snd (rotate_deck k d) = d) \<and>
      (0 < size_deck d \<longrightarrow>
         cards (snd (rotate_deck k d)) =
           drop (nat (size_deck d - k mod size_deck d)) (cards d) @
           take (nat (size_deck d - k mod size_deck d)) (cards d))) \<and>
   rotate_deck 0 d = (Inr (), d) \<and>
   (size_deck d < 2 ^ 63 \<longrightarrow> rotate_deck (size_deck d) d = (Inr (), d)) \<and>
   (- (2 ^ 63) < k \<and> k < 2 ^ 63 \<longrightarrow>
      rotate_deck (- k) (snd (rotate_deck k d)) = (Inr (), d))"
proof -
  have fails: "isl (fst (rotate_deck k d)) \<longleftrightarrow> k < - (2 ^ 63) \<or> 2 ^ 63 \<le> k"
    by (auto simp: rotate_deck_def deque_rotate_def as_ssize_t_def)
  have unchanged: "isl (fst (rotate_deck k d)) \<longrightarrow> rotate_deck k d = (Inl OverflowError, d)"
    by (simp add: rotate_deck_def deque_rotate_def as_ssize_t_def)
  have inside: "fst (rotate_deck k d) = Inr () \<and>
      size_deck (snd (rotate_deck k d)) = size_deck d \<and>
      (size_deck d = 0 \<longrightarrow> snd (rotate_deck k d) = d) \<and>
      (0 < size_deck d \<longrightarrow>
         cards (snd (rotate_deck k d)) =
           drop (nat (size_deck d - k mod size_deck d)) (cards d) @
           take (nat (size_deck d - k mod size_deck d)) (cards d))"
    if "- (2 ^ 63) \<le> k" and "k < 2 ^ 63"
  proof -
    note run = rotate_deck_in_range [OF that]
    have empty: "snd (rotate_deck k d) = d" if "size_deck d = 0"
    proof -
      from that have "cards d = []"
        by (simp add: size_deck_def)
      then show ?thesis
        by (simp add: run rotate_steps_conv)
    qed
    have turned: "cards (snd (rotate_deck k d)) =
           drop (nat (size_deck d - k mod size_deck d)) (cards d) @
           take (nat (size_deck d - k mod size_deck d)) (cards d)" if "0 < size_deck d"
    proof -
      from that have "cards d \<noteq> []"
        by (auto simp: size_deck_def)
      from rotate_steps_drop_take [OF this, of k] show ?thesis
        by (simp add: run size_deck_def)
    qed
    from empty turned show ?thesis
      by (simp add: run size_deck_def length_rotate_steps)
  qed
  have zero: "rotate_deck 0 d = (Inr (), d)"
    by (simp add: rotate_deck_in_range rotate_steps_zero)
  have full: "rotate_deck (size_deck d) d = (Inr (), d)" if "size_deck d < 2 ^ 63"
  proof -
    have "- (2 ^ 63) \<le> size_deck d"
      by (simp add: size_deck_def)
    from rotate_deck_in_range [OF this that, of d]
    have "rotate_deck (size_deck d) d =
          (Inr (), d\<lparr>cards := rotate_steps (int (length (cards d))) (cards d)\<rparr>)"
      by (simp add: size_deck_def)
    then show ?thesis
      by (simp add: rotate_steps_length)
  qed
  have inverse: "rotate_deck (- k) (snd (rotate_deck k d)) = (Inr (), d)"
    if "- (2 ^ 63) < k" and "k < 2 ^ 63"
  proof -
    from that have "- (2 ^ 63) \<le> k" and "- (2 ^ 63) \<le> - k" and "- k < 2 ^ 63"
      by simp_all
    with that show ?thesis
      by (simp add: rotate_deck_in_range rotate_steps_inverse)
  qed
  from fails unchanged inside zero full inverse show ?thesis
    by blast
qed

theorem rotate_within_ssize_t_witness:
  "rotate_deck 7 \<lparr>cards = [10, 20, 30 :: nat]\<rparr> = (Inr (), \<lparr>cards = [30, 10, 20]\<rparr>) \<and>
   rotate_deck (- 7) \<lparr>cards = [30, 10, 20 :: nat]\<rparr> = (Inr (), \<lparr>cards = [10, 20, 30]\<rparr>) \<and>
   rotate_deck 3 \<lparr>cards = [10, 20, 30 :: nat]\<rparr> = (Inr (), \<lparr>cards = [10, 20, 30]\<rparr>) \<and>
   rotate_deck (- (2 ^ 63) - 1) \<lparr>cards = [10, 20, 30 :: nat]\<rparr> =
     (Inl OverflowError, \<lparr>cards = [10, 20, 30]\<rparr>)"
proof -
  let ?d = "\<lparr>cards = [10, 20, 30 :: nat]\<rparr>"
  have range: "- (2 ^ 63) \<le> (7::int) \<and> (7::int) < 2 ^ 63"
    by simp
  have strict: "- (2 ^ 63) < (7::int) \<and> (7::int) < 2 ^ 63"
    by simp
  have some: "0 < size_deck ?d"
    by (simp add: size_deck_def)
  have few: "size_deck ?d < 2 ^ 63"
    by (simp add: size_deck_def)
  have below: "- (2 ^ 63) - 1 < - (2 ^ 63 :: int) \<or> 2 ^ 63 \<le> - (2 ^ 63) - (1::int)"
    by simp
  note inst = rotate_within_ssize_t [of 7 ?d]
  from inst range have ok: "fst (rotate_deck 7 ?d) = Inr ()"
    by blast
  from inst range some
  have "cards (snd (rotate_deck 7 ?d)) =
          drop (nat (size_deck ?d - 7 mod size_deck ?d)) (cards ?d) @
          take (nat (size_deck ?d - 7 mod size_deck ?d)) (cards ?d)"
    by blast
  then have "cards (snd (rotate_deck 7 ?d)) = [30, 10, 20]"
    by (simp add: size_deck_def)
  then have after: "snd (rotate_deck 7 ?d) = \<lparr>cards = [30, 10, 20]\<rparr>"
    by (cases "snd (rotate_deck 7 ?d)") simp
  from ok after have fwd: "rotate_deck 7 ?d = (Inr (), \<lparr>cards = [30, 10, 20]\<rparr>)"
    by (simp add: prod_eq_iff)
  from inst strict have "rotate_deck (- 7) (snd (rotate_deck 7 ?d)) = (Inr (), ?d)"
    by blast
  with after have bwd: "rotate_deck (- 7) \<lparr>cards = [30, 10, 20 :: nat]\<rparr> = (Inr (), ?d)"
    by simp
  from inst few have "rotate_deck (size_deck ?d) ?d = (Inr (), ?d)"
    by blast
  then have whole: "rotate_deck 3 ?d = (Inr (), ?d)"
    by (simp add: size_deck_def)
  from below rotate_within_ssize_t [of "- (2 ^ 63) - 1" ?d]
  have "rotate_deck (- (2 ^ 63) - 1) ?d = (Inl OverflowError, ?d)"
    by blast
  with fwd bwd whole show ?thesis
    by blast
qed

text \<open>
  Claim C9. For two deck objects \<open>deck1\<close> and \<open>deck2\<close> of the store (they may be the
  same object), \<^verbatim>\<open>merge_decks\<close> returns a new object, whose cards are the cards of
  \<open>deck1\<close> from top to bottom followed by the cards of \<open>deck2\<close> from top to bottom.
  Its size is the sum of the two sizes, drawing \<open>size(deck1)\<close> cards from it returns
  the cards of \<open>deck1\<close>, and every object that was in the store before the call,
  \<open>deck1\<close> and \<open>deck2\<close> among them, is as it was.
\<close>

theorem merge_decks_concatenates:
  assumes "deck1 < length s" and "deck2 < length s"
  shows "fst (merge_decks deck1 deck2 s) = length s \<and>
         cards (snd (merge_decks deck1 deck2 s) ! fst (merge_decks deck1 deck2 s)) =
           cards (s ! deck1) @ cards (s ! deck2) \<and>
         size_deck (snd (merge_decks deck1 deck2 s) ! fst (merge_decks deck1 deck2 s)) =
           size_deck (s ! deck1) + size_deck (s ! deck2) \<and>
         fst (draw (size_deck (s ! deck1))
                (snd (merge_decks deck1 deck2 s) ! fst (merge_decks deck1 deck2 s))) =
           Inr (cards (s ! deck1)) \<and>
         snd (merge_decks deck1 deck2 s) ! deck1 = s ! deck1 \<and>
         snd (merge_decks deck1 deck2 s) ! deck2 = s ! deck2 \<and>
         take (length s) (snd (merge_decks deck1 deck2 s)) = s"
proof -
  let ?new = "\<lparr>cards = cards (s ! deck1) @ cards (s ! deck2)\<rparr>"
  from assms have merged: "merge_decks deck1 deck2 s = (length s, s @ [?new])"
    by (simp add: merge_decks_def create_empty_deck_def add_cards_at_def list_of_deck_def
        Deck_init_def add_cards_eq nth_append)
  have drawn: "fst (draw (size_deck (s ! deck1)) ?new) = Inr (cards (s ! deck1))"
    by (simp add: draw_in_range size_deck_def)
  from assms merged drawn show ?thesis
    by (simp add: nth_append size_deck_def)
qed

theorem merge_decks_concatenates_witness:
  "fst (merge_decks 0 1
          [\<lparr>cards = [create_number_card RED 7]\<rparr>, \<lparr>cards = [create_wild_card WILD]\<rparr>]) = 2 \<and>
   cards (snd (merge_decks 0 1
          [\<lparr>cards = [create_number_card RED 7]\<rparr>, \<lparr>cards = [create_wild_card WILD]\<rparr>]) ! 2) =
     [create_number_card RED 7, create_wild_card WILD] \<and>
   snd (merge_decks 0 1
          [\<lparr>cards = [create_number_card RED 7]\<rparr>, \<lparr>cards = [create_wild_card WILD]\<rparr>]) ! 0 =
     \<lparr>cards = [create_number_card RED 7]\<rparr> \<and>
   snd (merge_decks 0 1
          [\<lparr>cards = [create_number_card RED 7]\<rparr>, \<lparr>cards = [create_wild_card WILD]\<rparr>]) ! 1 =
     \<lparr>cards = [create_wild_card WILD]\<rparr>"
proof -
  let ?a = "\<lparr>cards = [create_number_card RED 7]\<rparr>"
  let ?b = "\<lparr>cards = [create_wild_card WILD]\<rparr>"
  let ?s = "[?a, ?b]"
  let ?m = "merge_decks 0 1 ?s"
  have r1: "0 < length ?s" and r2: "1 < length ?s"
    by simp_all
  note inst = merge_decks_concatenates [OF r1 r2]
  from inst have "fst ?m = length ?s"
    by blast
  then have ref: "fst ?m = 2"
    by simp
  from inst have "cards (snd ?m ! fst ?m) = cards (?s ! 0) @ cards (?s ! 1)"
    by blast
  with ref have new: "cards (snd ?m ! 2) = [create_number_card RED 7, create_wild_card WILD]"
    by simp
  from inst have "snd ?m ! 0 = ?s ! 0" and "snd ?m ! 1 = ?s ! 1"
    by blast+
  then have old: "snd ?m ! 0 = ?a" "snd ?m ! 1 = ?b"
    by simp_all
  from ref new old show ?thesis
    by blast
qed

text \<open>
  Claim C10. For every deck and whatever the three predicates of a card are,
  \<^verbatim>\<open>get_card_distribution\<close> counts a card as a number card when the first predicate
  holds, as an action card when the first fails and the second holds, as a wild card
  when the first two fail and the third holds, and in no bucket otherwise. So the three
  counts add up to at most the total, and to the total exactly when every card of the
  deck satisfies one of the three predicates.
\<close>

theorem distribution_buckets_exclusive:
  "number_cards (get_card_distribution col lab isnum isact iswild d) =
     int (length (filter isnum (cards d))) \<and>
   action_cards (get_card_distribution col lab isnum isact iswild d) =
     int (length (filter (\<lambda>c. \<not> isnum c \<and> isact c) (cards d))) \<and>
   wild_cards (get_card_distribution col lab isnum isact iswild d) =
     int (length (filter (\<lambda>c. \<not> isnum c \<and> \<not> isact c \<and> iswild c) (cards d))) \<and>
   total (get_card_distribution col lab isnum isact iswild d) = size_deck d \<and>
   number_cards (get_card_distribution col lab isnum isact iswild d) +
     action_cards (get_card_distribution col lab isnum isact iswild d) +
     wild_cards (get_card_distribution col lab isnum isact iswild d)
     \<le> total (get_card_distribution col lab isnum isact iswild d) \<and>
   (number_cards (get_card_distribution col lab isnum isact iswild d) +
     action_cards (get_card_distribution col lab isnum isact iswild d) +
     wild_cards (get_card_distribution col lab isnum isact iswild d)
     = total (get_card_distribution col lab isnum isact iswild d)) =
   list_all (\<lambda>c. isnum c \<or> isact c \<or> iswild c) (cards d)"
proof -
  let ?D = "get_card_distribution col lab isnum isact iswild d"
  let ?rest = "length (filter (\<lambda>c. \<not> isnum c \<and> \<not> isact c \<and> \<not> iswild c) (cards d))"
  have n: "number_cards ?D = int (length (filter isnum (cards d)))"
    by (simp add: get_card_distribution_def fold_count_card_number)
  have a: "action_cards ?D = int (length (filter (\<lambda>c. \<not> isnum c \<and> isact c) (cards d)))"
    by (simp add: get_card_distribution_def fold_count_card_action)
  have w: "wild_cards ?D =
           int (length (filter (\<lambda>c. \<not> isnum c \<and> \<not> isact c \<and> iswild c) (cards d)))"
    by (simp add: get_card_distribution_def fold_count_card_wild)
  have t: "total ?D = size_deck d"
    by (simp add: get_card_distribution_def fold_count_card_total)
  have "int (length (filter isnum (cards d))) +
        int (length (filter (\<lambda>c. \<not> isnum c \<and> isact c) (cards d))) +
        int (length (filter (\<lambda>c. \<not> isnum c \<and> \<not> isact c \<and> iswild c) (cards d))) +
        int ?rest = int (length (cards d))"
    using buckets_partition [of isnum "cards d" isact iswild] by linarith
  with n a w t have sum: "number_cards ?D + action_cards ?D + wild_cards ?D + int ?rest = total ?D"
    by (simp add: size_deck_def)
  then have le: "number_cards ?D + action_cards ?D + wild_cards ?D \<le> total ?D"
    by linarith
  from sum have "(number_cards ?D + action_cards ?D + wild_cards ?D = total ?D) = (?rest = 0)"
    by linarith
  then have eq: "(number_cards ?D + action_cards ?D + wild_cards ?D = total ?D) =
                 list_all (\<lambda>c. isnum c \<or> isact c \<or> iswild c) (cards d)"
    by (simp only: no_rest_iff)
  from n a w t le eq show ?thesis
    by blast
qed

theorem distribution_buckets_exclusive_witness:
  "number_cards (get_card_distribution (\<lambda>c. c mod 2) (\<lambda>c. c)
      (\<lambda>c. c < 10) (\<lambda>c. c < 20) (\<lambda>c. c < 30) \<lparr>cards = [5, 15, 25, 35 :: nat]\<rparr>) = 1 \<and>
   action_cards (get_card_distribution (\<lambda>c. c mod 2) (\<lambda>c. c)
      (\<lambda>c. c < 10) (\<lambda>c. c < 20) (\<lambda>c. c < 30) \<lparr>cards = [5, 15, 25, 35 :: nat]\<rparr>) = 1 \<and>
   wild_cards (get_card_distribution (\<lambda>c. c mod 2) (\<lambda>c. c)
      (\<lambda>c. c < 10) (\<lambda>c. c < 20) (\<lambda>c. c < 30) \<lparr>cards = [5, 15, 25, 35 :: nat]\<rparr>) = 1 \<and>
   total (get_card_distribution (\<lambda>c. c mod 2) (\<lambda>c. c)
      (\<lambda>c. c < 10) (\<lambda>c. c < 20) (\<lambda>c. c < 30) \<lparr>cards = [5, 15, 25, 35 :: nat]\<rparr>) = 4"
  using distribution_buckets_exclusive [of "\<lambda>c. c mod 2" "\<lambda>c. c" "\<lambda>c. c < 10" "\<lambda>c. c < 20"
      "\<lambda>c. c < 30" "\<lparr>cards = [5, 15, 25, 35 :: nat]\<rparr>"]
  by (simp add: size_deck_def)

end
